theory Spec2Isabelle
  imports Main "HOL-Library.AList"
begin

section \<open>Strings, values and documents\<close>

text \<open>
  A Python string is a sequence of code points. A code point is modelled by what the
  program can observe of it: an ASCII character; a decimal digit outside ASCII (Unicode
  category \<^verbatim>\<open>Nd\<close>), given by the code point of the zero of its script and its value; or
  any other code point outside ASCII. String literals of the source are ASCII and are
  lifted with \<open>ustr\<close>. Keys of documents and the texts of errors are literals of the
  source and stay ASCII strings.
\<close>

datatype uchar = Ascii char | Decimal nat nat | Other nat

type_synonym ustring = "uchar list"

definition ustr :: "string \<Rightarrow> ustring" where
  "ustr s = map Ascii s"

type_synonym bytes = "nat list"

text \<open>
  \<^verbatim>\<open>datetime\<close>, naive: the fields of the object. The store keeps a timestamp with
  millisecond precision, so a written \<^verbatim>\<open>datetime\<close> loses its microseconds below the
  millisecond (\<open>bson_datetime\<close>).
\<close>

record datetime =
  dt_year :: nat
  dt_month :: nat
  dt_day :: nat
  dt_hour :: nat
  dt_minute :: nat
  dt_second :: nat
  dt_microsecond :: nat

definition bson_datetime :: "datetime \<Rightarrow> datetime" where
  "bson_datetime t = t\<lparr>dt_microsecond := 1000 * (dt_microsecond t div 1000)\<rparr>"

text \<open>
  The store holds schema-less documents. The handlers of \<^verbatim>\<open>main.py\<close> only ever write
  strings, \<^verbatim>\<open>None\<close>, identifiers and timestamps, so these are the values of the model.
  An identifier (\<^verbatim>\<open>bson.ObjectId\<close>) is given by its bytes. A document is a Python
  \<^verbatim>\<open>dict\<close>: an association list in insertion order.
\<close>

datatype val = VNone | VStr ustring | VOid bytes | VTime datetime

type_synonym doc = "(string \<times> val) list"

datatype exn = InvalidId | ValueError | KeyError | TypeError

text \<open>
  A handler either raises \<^verbatim>\<open>HTTPException(status_code, detail)\<close> or lets another
  exception escape, which the framework answers with HTTP 500.
\<close>

datatype http_error = HTTPException nat string | Uncaught exn

definition dict_get :: "doc \<Rightarrow> string \<Rightarrow> val option" where
  "dict_get d k = map_of d k"

definition dict_set :: "doc \<Rightarrow> string \<Rightarrow> val \<Rightarrow> doc" where
  "dict_set d k v = AList.update k v d"

definition dict_del :: "doc \<Rightarrow> string \<Rightarrow> doc" where
  "dict_del d k = AList.delete k d"

text \<open>Truthiness of an optional document: \<^verbatim>\<open>None\<close> and \<^verbatim>\<open>{}\<close> are falsy.\<close>

fun truthy :: "doc option \<Rightarrow> bool" where
  "truthy None = False"
| "truthy (Some d) = (d \<noteq> [])"

text \<open>Truthiness of an optional string: \<^verbatim>\<open>None\<close> and \<^verbatim>\<open>""\<close> are falsy.\<close>

fun truthy_str :: "ustring option \<Rightarrow> bool" where
  "truthy_str None = False"
| "truthy_str (Some s) = (s \<noteq> [])"

section \<open>Identifiers\<close>

text \<open>
  \<^verbatim>\<open>ObjectId(s)\<close> on a string: the string must have 24 characters and
  \<^verbatim>\<open>bytes.fromhex(s)\<close> must succeed, otherwise \<^verbatim>\<open>InvalidId\<close> is raised; the
  identifier is the bytes \<^verbatim>\<open>fromhex\<close> returns. \<^verbatim>\<open>bytes.fromhex\<close> reads pairs of
  hexadecimal digits (either case) and skips ASCII whitespace before a pair, so a string
  of 24 characters with whitespace in it can give fewer than 12 bytes. \<^verbatim>\<open>str(oid)\<close>
  prints two lowercase hexadecimal digits for each byte.
\<close>

definition hexval :: "uchar \<Rightarrow> nat option" where
  "hexval c =
     (case c of
        Ascii a \<Rightarrow>
          (let k = (of_char a :: nat) in
           if 48 \<le> k \<and> k \<le> 57 then Some (k - 48)
           else if 97 \<le> k \<and> k \<le> 102 then Some (k - 87)
           else if 65 \<le> k \<and> k \<le> 70 then Some (k - 55)
           else None)
      | _ \<Rightarrow> None)"

definition is_ascii_space :: "uchar \<Rightarrow> bool" where
  "is_ascii_space c =
     (case c of
        Ascii a \<Rightarrow> (let k = (of_char a :: nat) in k = 32 \<or> (9 \<le> k \<and> k \<le> 13))
      | _ \<Rightarrow> False)"

fun fromhex :: "ustring \<Rightarrow> bytes option" where
  "fromhex [] = Some []"
| "fromhex [c] = (if is_ascii_space c then Some [] else None)"
| "fromhex (c # d # s) =
     (if is_ascii_space c then fromhex (d # s)
      else (case (hexval c, hexval d) of
              (Some a, Some b) \<Rightarrow> map_option ((#) (16 * a + b)) (fromhex s)
            | _ \<Rightarrow> None))"

definition ObjectId :: "ustring \<Rightarrow> exn + bytes" where
  "ObjectId s =
     (if length s = 24
      then (case fromhex s of None \<Rightarrow> Inl InvalidId | Some bs \<Rightarrow> Inr bs)
      else Inl InvalidId)"

definition hex_char :: "nat \<Rightarrow> uchar" where
  "hex_char n = Ascii (''0123456789abcdef'' ! (n mod 16))"

definition str_oid :: "bytes \<Rightarrow> ustring" where
  "str_oid bs = concat (map (\<lambda>b. [hex_char (b div 16), hex_char b]) bs)"

text \<open>
  The identifiers the store generates are 12 bytes long and unique; the model draws them
  from a counter, written on 12 bytes.
\<close>

fun to_bytes :: "nat \<Rightarrow> nat \<Rightarrow> bytes" where
  "to_bytes 0 n = []"
| "to_bytes (Suc k) n = to_bytes k (n div 256) @ [n mod 256]"

definition oid_num :: "bytes \<Rightarrow> nat" where
  "oid_num bs = foldl (\<lambda>a b. 256 * a + b) 0 bs"

definition new_oid :: "nat \<Rightarrow> bytes" where
  "new_oid n = to_bytes 12 n"

text \<open>\<^verbatim>\<open>str(v)\<close> for the values of the model.\<close>

definition digit_char :: "nat \<Rightarrow> char" where
  "digit_char n = ''0123456789'' ! (n mod 10)"

definition pad2 :: "nat \<Rightarrow> string" where
  "pad2 n = [digit_char (n div 10), digit_char n]"

definition pad4 :: "nat \<Rightarrow> string" where
  "pad4 n = [digit_char (n div 1000), digit_char (n div 100), digit_char (n div 10), digit_char n]"

definition pad6 :: "nat \<Rightarrow> string" where
  "pad6 n = pad2 (n div 10000) @ pad4 n"

definition str_datetime :: "datetime \<Rightarrow> string" where
  "str_datetime t =
     pad4 (dt_year t) @ ''-'' @ pad2 (dt_month t) @ ''-'' @ pad2 (dt_day t) @ '' '' @
     pad2 (dt_hour t) @ '':'' @ pad2 (dt_minute t) @ '':'' @ pad2 (dt_second t) @
     (if dt_microsecond t = 0 then [] else ''.'' @ pad6 (dt_microsecond t))"

fun py_str :: "val \<Rightarrow> ustring" where
  "py_str VNone = ustr ''None''"
| "py_str (VStr s) = s"
| "py_str (VOid bs) = str_oid bs"
| "py_str (VTime t) = ustr (str_datetime t)"

section \<open>Utilities of main.py\<close>

text \<open>
  \<^verbatim>\<open>serialize_id\<close>: a falsy argument is returned as it is; otherwise the copy loses
  \<^verbatim>\<open>_id\<close> (when present) and gains \<^verbatim>\<open>id = str(_id)\<close>.
\<close>

definition serialize_id :: "doc option \<Rightarrow> doc option" where
  "serialize_id doc =
     (case doc of
        None \<Rightarrow> None
      | Some d \<Rightarrow>
          if d = [] then Some d
          else (case dict_get d ''_id'' of
                  None \<Rightarrow> Some d
                | Some v \<Rightarrow> Some (dict_set (dict_del d ''_id'') ''id'' (VStr (py_str v)))))"

subsection \<open>The date normalizer\<close>

text \<open>
  \<^verbatim>\<open>datetime.strptime(s, "%Y-%m-%d")\<close> compiles the format to the regular expression
  \<^verbatim>\<open>(\d\d\d\d)-(1[0-2]|0[1-9]|[1-9])-(3[0-1]|[1-2]\d|0[1-9]|[1-9]| [1-9])\<close>,
  matches it at the start of the string (alternatives in this order, backtracking),
  raises \<^verbatim>\<open>ValueError\<close> when there is no match or when text remains after the match,
  converts the groups with \<^verbatim>\<open>int\<close>, and builds the date, which raises
  \<^verbatim>\<open>ValueError\<close> for a year 0 or a day the month does not have. \<^verbatim>\<open>\d\<close> matches every
  Unicode decimal digit, a class such as \<^verbatim>\<open>[1-9]\<close> only ASCII digits. Each matcher
  below returns its matches in the order the regular expression tries them, with the
  rest of the string.
\<close>

definition ascii_digit :: "nat \<Rightarrow> nat \<Rightarrow> uchar \<Rightarrow> bool" where
  "ascii_digit lo hi c =
     (case c of
        Ascii a \<Rightarrow> 48 + lo \<le> (of_char a :: nat) \<and> (of_char a :: nat) \<le> 48 + hi
      | _ \<Rightarrow> False)"

definition is_digit :: "uchar \<Rightarrow> bool" where
  "is_digit c = (case c of Ascii a \<Rightarrow> ascii_digit 0 9 c | Decimal z v \<Rightarrow> v < 10 | Other n \<Rightarrow> False)"

definition digit_val :: "uchar \<Rightarrow> nat" where
  "digit_val c =
     (case c of
        Ascii a \<Rightarrow> (if ascii_digit 0 9 c then of_char a - 48 else 0)
      | Decimal z v \<Rightarrow> (if v < 10 then v else 0)
      | Other n \<Rightarrow> 0)"

definition is_space :: "uchar \<Rightarrow> bool" where
  "is_space c = (c = Ascii CHR '' '')"

definition hyphen :: uchar where
  "hyphen = Ascii CHR ''-''"

fun two_chars :: "(uchar \<Rightarrow> bool) \<Rightarrow> (uchar \<Rightarrow> bool) \<Rightarrow> ustring \<Rightarrow> (nat \<times> ustring) list" where
  "two_chars p q (a # b # r) = (if p a \<and> q b then [(10 * digit_val a + digit_val b, r)] else [])"
| "two_chars p q r = []"

fun one_char :: "(uchar \<Rightarrow> bool) \<Rightarrow> ustring \<Rightarrow> (nat \<times> ustring) list" where
  "one_char p (a # r) = (if p a then [(digit_val a, r)] else [])"
| "one_char p [] = []"

fun lit :: "uchar \<Rightarrow> ustring \<Rightarrow> ustring list" where
  "lit c (a # r) = (if a = c then [r] else [])"
| "lit c [] = []"

fun match_Y :: "ustring \<Rightarrow> (nat \<times> ustring) list" where
  "match_Y (a # b # c # d # r) =
     (if is_digit a \<and> is_digit b \<and> is_digit c \<and> is_digit d
      then [(1000 * digit_val a + 100 * digit_val b + 10 * digit_val c + digit_val d, r)]
      else [])"
| "match_Y r = []"

definition match_m :: "ustring \<Rightarrow> (nat \<times> ustring) list" where
  "match_m s =
     two_chars (ascii_digit 1 1) (ascii_digit 0 2) s @
     two_chars (ascii_digit 0 0) (ascii_digit 1 9) s @
     one_char (ascii_digit 1 9) s"

definition match_d :: "ustring \<Rightarrow> (nat \<times> ustring) list" where
  "match_d s =
     two_chars (ascii_digit 3 3) (ascii_digit 0 1) s @
     two_chars (ascii_digit 1 2) is_digit s @
     two_chars (ascii_digit 0 0) (ascii_digit 1 9) s @
     one_char (ascii_digit 1 9) s @
     two_chars is_space (ascii_digit 1 9) s"

definition regex_match :: "ustring \<Rightarrow> ((nat \<times> nat \<times> nat) \<times> ustring) list" where
  "regex_match s =
     concat (map (\<lambda>(y, r1).
       concat (map (\<lambda>r2.
         concat (map (\<lambda>(m, r3).
           concat (map (\<lambda>r4.
             map (\<lambda>(d, r5). ((y, m, d), r5)) (match_d r4))
           (lit hyphen r3)))
         (match_m r2)))
       (lit hyphen r1)))
     (match_Y s))"

definition is_leap :: "nat \<Rightarrow> bool" where
  "is_leap y = (y mod 4 = 0 \<and> (y mod 100 \<noteq> 0 \<or> y mod 400 = 0))"

definition days_in_month :: "nat \<Rightarrow> nat \<Rightarrow> nat" where
  "days_in_month y m =
     (if m = 2 then (if is_leap y then 29 else 28)
      else if m = 4 \<or> m = 6 \<or> m = 9 \<or> m = 11 then 30 else 31)"

definition valid_date :: "nat \<times> nat \<times> nat \<Rightarrow> bool" where
  "valid_date ymd =
     (case ymd of (y, m, d) \<Rightarrow>
        1 \<le> y \<and> y \<le> 9999 \<and> 1 \<le> m \<and> m \<le> 12 \<and> 1 \<le> d \<and> d \<le> days_in_month y m)"

definition strptime_ymd :: "ustring \<Rightarrow> exn + (nat \<times> nat \<times> nat)" where
  "strptime_ymd s =
     (case regex_match s of
        [] \<Rightarrow> Inl ValueError
      | (ymd, rest) # _ \<Rightarrow>
          if rest \<noteq> [] then Inl ValueError
          else if valid_date ymd then Inr ymd else Inl ValueError)"

text \<open>
  \<^verbatim>\<open>strftime("%Y-%m-%d")\<close> hands the format to the C library, and the C library of
  Linux prints \<^verbatim>\<open>%Y\<close> without padding: a year below 1000 comes out on fewer than four
  digits.
\<close>

definition year_str :: "nat \<Rightarrow> string" where
  "year_str y =
     (if y < 10 then [digit_char y]
      else if y < 100 then [digit_char (y div 10), digit_char y]
      else if y < 1000 then [digit_char (y div 100), digit_char (y div 10), digit_char y]
      else pad4 y)"

definition strftime_ymd :: "nat \<times> nat \<times> nat \<Rightarrow> ustring" where
  "strftime_ymd ymd =
     (case ymd of (y, m, d) \<Rightarrow> ustr (year_str y @ ''-'' @ pad2 m @ ''-'' @ pad2 d))"

definition normalize_date :: "ustring \<Rightarrow> http_error + ustring" where
  "normalize_date date_str =
     (case strptime_ymd date_str of
        Inl e \<Rightarrow> Inl (HTTPException 400 ''Invalid date format. Use YYYY-MM-DD'')
      | Inr ymd \<Rightarrow> Inr (strftime_ymd ymd))"

subsection \<open>Shapes of date strings\<close>




section \<open>The document store\<close>

text \<open>
  The store client (\<^verbatim>\<open>db\<close>): named collections of documents in their natural
  order. Every stored document carries a unique \<^verbatim>\<open>_id\<close>; the identifiers the store
  generates are drawn from a counter, which stands for the uniqueness of generated
  identifiers. The handlers below are modelled on an available store whose operations
  succeed; the diagnostic endpoint, which also handles an absent or failing store, has
  its own model of the client further down.
\<close>

record store =
  colls :: "string \<Rightarrow> doc list"
  oid_counter :: nat

text \<open>
  An equality filter: every clause \<^verbatim>\<open>{k: v}\<close> holds of the document. A clause with a
  \<^verbatim>\<open>None\<close> value also holds where the field is missing.
\<close>

definition field_matches :: "doc \<Rightarrow> string \<times> val \<Rightarrow> bool" where
  "field_matches d kv =
     (case map_of d (fst kv) of None \<Rightarrow> snd kv = VNone | Some w \<Rightarrow> w = snd kv)"

definition matches :: "doc \<Rightarrow> doc \<Rightarrow> bool" where
  "matches flt d = list_all (field_matches d) flt"

definition find_one :: "doc list \<Rightarrow> doc \<Rightarrow> doc option" where
  "find_one coll flt = List.find (matches flt) coll"

text \<open>What the store keeps of a written value.\<close>

fun to_bson :: "val \<Rightarrow> val" where
  "to_bson (VTime t) = VTime (bson_datetime t)"
| "to_bson v = v"

definition set_fields :: "doc \<Rightarrow> doc \<Rightarrow> doc" where
  "set_fields d sets = foldl (\<lambda>acc kv. dict_set acc (fst kv) (to_bson (snd kv))) d sets"

text \<open>\<^verbatim>\<open>update_one(flt, {"$set": sets})\<close>: the first matching document is updated.\<close>

fun update_one :: "doc list \<Rightarrow> doc \<Rightarrow> doc \<Rightarrow> doc list" where
  "update_one [] flt sets = []"
| "update_one (d # ds) flt sets =
     (if matches flt d then set_fields d sets # ds else d # update_one ds flt sets)"



subsection \<open>Data access helpers\<close>

text \<open>
  Modelled from the spec: \<^verbatim>\<open>create_document\<close> and \<^verbatim>\<open>get_documents\<close> live in
  \<^verbatim>\<open>database.py\<close>, which is not among the sources. The spec describes them as thin
  wrappers that insert a record into a named collection and return its generated
  identifier, and fetch the records of a named collection, optionally filtered by an
  equality-match document. The identifier is returned in its string form, which
  \<^verbatim>\<open>ObjectId(new_id)\<close> in the callers parses back. The record is stored with the
  generated \<^verbatim>\<open>_id\<close> in front, as the store returns it.
\<close>

definition create_document :: "store \<Rightarrow> string \<Rightarrow> doc \<Rightarrow> store \<times> ustring" where
  "create_document db cname data =
     (let oid = new_oid (oid_counter db);
          stored = (''_id'', VOid oid) # map (\<lambda>kv. (fst kv, to_bson (snd kv))) data
      in (db\<lparr>colls := (colls db)(cname := colls db cname @ [stored]),
             oid_counter := Suc (oid_counter db)\<rparr>,
          str_oid oid))"

definition get_documents :: "store \<Rightarrow> string \<Rightarrow> doc \<Rightarrow> doc list" where
  "get_documents db cname flt = filter (matches flt) (colls db cname)"

section \<open>Request bodies\<close>

datatype status_lit = Present | Absent | Late

fun status_str :: "status_lit \<Rightarrow> ustring" where
  "status_str Present = ustr ''present''"
| "status_str Absent = ustr ''absent''"
| "status_str Late = ustr ''late''"

record DriverCreate =
  name :: ustring
  phone :: "ustring option"
  license_no :: "ustring option"

record AttendanceCreate =
  driver_id :: ustring
  date :: ustring
  status :: status_lit
  "notes" :: "ustring option"

fun opt_val :: "ustring option \<Rightarrow> val" where
  "opt_val None = VNone"
| "opt_val (Some s) = VStr s"

definition model_dump :: "DriverCreate \<Rightarrow> doc" where
  "model_dump payload =
     [(''name'', VStr (name payload)), (''phone'', opt_val (phone payload)),
      (''license_no'', opt_val (license_no payload))]"

section \<open>Handlers\<close>

text \<open>
  A handler takes the store and returns the store it leaves behind together with its
  response or the error it raises, so that a failure after a write is visible.
\<close>

definition create_driver :: "store \<Rightarrow> DriverCreate \<Rightarrow> store \<times> (http_error + doc option)" where
  "create_driver db payload =
     (let driver = model_dump payload;
          (db', new_id) = create_document db ''driver'' driver
      in case ObjectId new_id of
           Inl e \<Rightarrow> (db', Inl (Uncaught e))
         | Inr oid \<Rightarrow> (db', Inr (serialize_id (find_one (colls db' ''driver'') [(''_id'', VOid oid)]))))"

definition list_drivers :: "store \<Rightarrow> doc option list" where
  "list_drivers db = map (\<lambda>d. serialize_id (Some d)) (get_documents db ''driver'' [])"

definition attendance_data :: "AttendanceCreate \<Rightarrow> ustring \<Rightarrow> doc" where
  "attendance_data payload date_norm =
     [(''driver_id'', VStr (driver_id payload)), (''date'', VStr date_norm),
      (''status'', VStr (status_str (status payload))), (''notes'', opt_val (notes payload))]"

definition mark_attendance ::
  "store \<Rightarrow> datetime \<Rightarrow> AttendanceCreate \<Rightarrow> store \<times> (http_error + doc option)" where
  "mark_attendance db utcnow payload =
     (case ObjectId (driver_id payload) of
        Inl _ \<Rightarrow> (db, Inl (HTTPException 400 ''Invalid driver_id''))
      | Inr driver_obj_id \<Rightarrow>
          if \<not> truthy (find_one (colls db ''driver'') [(''_id'', VOid driver_obj_id)])
          then (db, Inl (HTTPException 404 ''Driver not found''))
          else
            (case normalize_date (date payload) of
               Inl e \<Rightarrow> (db, Inl e)
             | Inr date_norm \<Rightarrow>
                 let existing = find_one (colls db ''attendance'')
                                  [(''driver_id'', VStr (driver_id payload)), (''date'', VStr date_norm)];
                     data = attendance_data payload date_norm
                 in if truthy existing then
                      (case map_of (the existing) ''_id'' of
                         None \<Rightarrow> (db, Inl (Uncaught KeyError))
                       | Some eid \<Rightarrow>
                           let db' = db\<lparr>colls := (colls db)(''attendance'' :=
                                        update_one (colls db ''attendance'') [(''_id'', eid)]
                                          (data @ [(''updated_at'', VTime utcnow)]))\<rparr>
                           in (db', Inr (serialize_id
                                 (find_one (colls db' ''attendance'') [(''_id'', eid)]))))
                    else
                      (let (db', new_id) = create_document db ''attendance'' data
                       in case ObjectId new_id of
                            Inl e \<Rightarrow> (db', Inl (Uncaught e))
                          | Inr oid \<Rightarrow>
                              (db', Inr (serialize_id
                                 (find_one (colls db' ''attendance'') [(''_id'', VOid oid)]))))))"

text \<open>
  \<^verbatim>\<open>get_attendance\<close> first builds \<^verbatim>\<open>filter_q\<close> from the query parameters that are
  truthy, then fetches and serializes.
\<close>

definition attendance_filter :: "ustring option \<Rightarrow> ustring option \<Rightarrow> http_error + doc" where
  "attendance_filter date_q driver_id_q =
     (case (if truthy_str date_q
            then (case normalize_date (the date_q) of
                    Inl e \<Rightarrow> Inl e
                  | Inr n \<Rightarrow> Inr [(''date'', VStr n)])
            else Inr [])
      of Inl e \<Rightarrow> Inl e
       | Inr filter_q \<Rightarrow>
           if truthy_str driver_id_q
           then (case ObjectId (the driver_id_q) of
                   Inl _ \<Rightarrow> Inl (HTTPException 400 ''Invalid driver_id'')
                 | Inr _ \<Rightarrow> Inr (dict_set filter_q ''driver_id'' (VStr (the driver_id_q))))
           else Inr filter_q)"

definition get_attendance ::
  "store \<Rightarrow> ustring option \<Rightarrow> ustring option \<Rightarrow> http_error + doc option list" where
  "get_attendance db date_q driver_id_q =
     (case attendance_filter date_q driver_id_q of
        Inl e \<Rightarrow> Inl e
      | Inr filter_q \<Rightarrow>
          Inr (map (\<lambda>d. serialize_id (Some d)) (get_documents db ''attendance'' filter_q)))"




subsection \<open>The diagnostic endpoint\<close>














section \<open>Well-formed stores\<close>

text \<open>
  What the store guarantees of its collections, and what the handlers keep: every
  document carries an \<^verbatim>\<open>_id\<close> that is an identifier of 12 bytes, generated before the
  counter's present value, no two documents of a collection carry the same, and no
  document has a field \<^verbatim>\<open>id\<close> of its own (the records of this system have none).
\<close>

definition doc_oid :: "doc \<Rightarrow> bytes option" where
  "doc_oid d = (case map_of d ''_id'' of Some (VOid bs) \<Rightarrow> Some bs | _ \<Rightarrow> None)"

definition wf_doc :: "nat \<Rightarrow> doc \<Rightarrow> bool" where
  "wf_doc k d =
     (case doc_oid d of
        None \<Rightarrow> False
      | Some bs \<Rightarrow> length bs = 12 \<and> list_all (\<lambda>b. b < 256) bs \<and> oid_num bs < k \<and>
                   map_of d ''id'' = None)"

definition wf_coll :: "nat \<Rightarrow> doc list \<Rightarrow> bool" where
  "wf_coll k ds = (list_all (wf_doc k) ds \<and> distinct (map doc_oid ds))"

definition wf_store :: "store \<Rightarrow> bool" where
  "wf_store db =
     (wf_coll (oid_counter db) (colls db ''driver'') \<and>
      wf_coll (oid_counter db) (colls db ''attendance'') \<and>
      oid_counter db \<le> 256 ^ 12)"

section \<open>A sample store and sample requests\<close>

text \<open>
  The example of the specification: one driver, Alice, whose identifier prints as 24
  zeros, and requests that mark her attendance.
\<close>

definition alice :: doc where
  "alice = [(''_id'', VOid (new_oid 0)), (''name'', VStr (ustr ''Alice'')), (''phone'', VNone),
            (''license_no'', VNone)]"

definition alice_id :: ustring where
  "alice_id = ustr ''000000000000000000000000''"

definition nobody_id :: ustring where
  "nobody_id = ustr ''00000000000000000000000f''"

definition store0 :: store where
  "store0 = \<lparr>colls = (\<lambda>_. [])(''driver'' := [alice]), oid_counter = 1\<rparr>"

definition noon :: datetime where
  "noon = \<lparr>dt_year = 2024, dt_month = 1, dt_day = 5, dt_hour = 12, dt_minute = 0, dt_second = 0,
            dt_microsecond = 123456\<rparr>"

definition mark :: "ustring \<Rightarrow> string \<Rightarrow> status_lit \<Rightarrow> ustring option \<Rightarrow> AttendanceCreate" where
  "mark i d s n = \<lparr>driver_id = i, date = ustr d, status = s, notes = n\<rparr>"


section \<open>Descriptions used by the statements\<close>




text \<open>
  The filter by which \<^verbatim>\<open>mark_attendance\<close> looks for the record of a driver and a date,
  and the fields it sets on the record it finds.
\<close>

definition pair_filter :: "AttendanceCreate \<Rightarrow> ustring \<Rightarrow> doc" where
  "pair_filter p dn = [(''driver_id'', VStr (driver_id p)), (''date'', VStr dn)]"

definition update_sets :: "AttendanceCreate \<Rightarrow> ustring \<Rightarrow> datetime \<Rightarrow> doc" where
  "update_sets p dn now = attendance_data p dn @ [(''updated_at'', VTime now)]"



section \<open>Basic facts\<close>

lemma normalize_date_error:
  "normalize_date s = Inl e \<Longrightarrow> e = HTTPException 400 ''Invalid date format. Use YYYY-MM-DD''"
  by (auto simp: normalize_date_def split: sum.splits)

lemma matches_Nil [simp]: "matches [] d"
  by (simp add: matches_def)

lemma matches_id:
  "matches [(''_id'', v)] d = (case map_of d ''_id'' of None \<Rightarrow> v = VNone | Some w \<Rightarrow> w = v)"
  by (simp add: matches_def field_matches_def split: option.split)

lemma find_one_None: "find_one coll flt = None \<longleftrightarrow> list_all (\<lambda>d. \<not> matches flt d) coll"
  by (auto simp: find_one_def find_None_iff list_all_iff)

lemma find_one_Some_matches: "find_one coll flt = Some d \<Longrightarrow> d \<in> set coll \<and> matches flt d"
  by (auto simp: find_one_def find_Some_iff)

lemma to_bytes_numeral:
  "to_bytes (numeral v) n = to_bytes (pred_numeral v) (n div 256) @ [n mod 256]"
  by (simp only: numeral_eq_Suc[of v] to_bytes.simps)

lemmas new_oid_eval = new_oid_def to_bytes_numeral

lemmas date_eval = normalize_date_def strptime_ymd_def regex_match_def match_m_def match_d_def
  ascii_digit_def is_digit_def digit_val_def is_space_def hyphen_def valid_date_def
  days_in_month_def is_leap_def strftime_ymd_def year_str_def pad2_def pad4_def digit_char_def ustr_def

lemmas oid_eval = ObjectId_def hexval_def is_ascii_space_def ustr_def

lemmas store_eval = find_one_def matches_def field_matches_def get_documents_def

lemma normalize_date_empty:
  "normalize_date [] = Inl (HTTPException 400 ''Invalid date format. Use YYYY-MM-DD'')"
  by (simp add: normalize_date_def strptime_ymd_def regex_match_def)

lemma ObjectId_empty: "ObjectId [] = Inl InvalidId"
  by (simp add: ObjectId_def)

lemma ObjectId_alice: "ObjectId alice_id = Inr (new_oid 0)"
  by (simp add: alice_id_def oid_eval new_oid_eval)

lemma ObjectId_nobody: "ObjectId nobody_id = Inr (new_oid 15)"
  by (simp add: nobody_id_def oid_eval new_oid_eval)

lemma find_alice: "find_one (colls store0 ''driver'') [(''_id'', VOid (new_oid 0))] = Some alice"
  by (simp add: store0_def alice_def store_eval)


section \<open>Empty query parameters\<close>

text \<open>
  Claim C9. In \<^verbatim>\<open>get_attendance\<close> a query parameter given as the empty string is
  treated as an absent one: the response is the response of the request without the
  parameter, so no clause enters the filter and no HTTP 400 is raised for it, although
  the empty string is neither a date the normalizer accepts nor an identifier
  \<^verbatim>\<open>ObjectId\<close> accepts. With both parameters empty, every attendance record is
  returned.
\<close>

theorem get_attendance_empty_params:
  "get_attendance db (Some []) drv = get_attendance db None drv \<and>
   get_attendance db dq (Some []) = get_attendance db dq None \<and>
   attendance_filter (Some []) (Some []) = Inr [] \<and>
   get_attendance db (Some []) (Some []) =
     Inr (map (\<lambda>d. serialize_id (Some d)) (colls db ''attendance'')) \<and>
   normalize_date [] = Inl (HTTPException 400 ''Invalid date format. Use YYYY-MM-DD'') \<and>
   ObjectId [] = Inl InvalidId"
  by (auto simp: get_attendance_def attendance_filter_def get_documents_def normalize_date_empty
      ObjectId_empty split: sum.splits)

theorem get_attendance_empty_params_witness:
  "get_attendance store0 (Some []) (Some []) = Inr [] \<and>
   get_attendance store0 (Some []) (Some alice_id) = get_attendance store0 None (Some alice_id)"
  using get_attendance_empty_params [of store0 "Some alice_id" None]
  by (simp add: store0_def)

section \<open>Failures of attendance marking\<close>

text \<open>
  Claim C2. \<^verbatim>\<open>mark_attendance\<close> answers HTTP 400 when \<^verbatim>\<open>driver_id\<close> is not an
  identifier, whatever the date is; it answers HTTP 404 when the identifier parses and
  no driver document carries it, again whatever the date is; the date is only looked at
  once the driver is found, and a date the normalizer rejects then gives HTTP 400. In
  each of these cases, and whenever the handler raises an \<^verbatim>\<open>HTTPException\<close> at all, the
  store is left exactly as it was.
\<close>

theorem mark_attendance_failures:
  "(ObjectId (driver_id p) = Inl e \<longrightarrow>
      mark_attendance db now p = (db, Inl (HTTPException 400 ''Invalid driver_id''))) \<and>
   (ObjectId (driver_id p) = Inr oid \<and>
    list_all (\<lambda>d. map_of d ''_id'' \<noteq> Some (VOid oid)) (colls db ''driver'') \<longrightarrow>
      mark_attendance db now p = (db, Inl (HTTPException 404 ''Driver not found''))) \<and>
   (ObjectId (driver_id p) = Inr oid \<and>
    truthy (find_one (colls db ''driver'') [(''_id'', VOid oid)]) \<and>
    normalize_date (date p) = Inl e' \<longrightarrow>
      mark_attendance db now p =
        (db, Inl (HTTPException 400 ''Invalid date format. Use YYYY-MM-DD''))) \<and>
   (snd (mark_attendance db now p) = Inl (HTTPException 400 ''Invalid date format. Use YYYY-MM-DD'') \<longrightarrow>
      (\<exists>i. ObjectId (driver_id p) = Inr i \<and>
           truthy (find_one (colls db ''driver'') [(''_id'', VOid i)]))) \<and>
   (snd (mark_attendance db now p) = Inl (HTTPException code detail) \<longrightarrow>
      fst (mark_attendance db now p) = db)"
proof (intro conjI impI)
  assume "ObjectId (driver_id p) = Inl e"
  then show "mark_attendance db now p = (db, Inl (HTTPException 400 ''Invalid driver_id''))"
    by (simp add: mark_attendance_def)
next
  assume a: "ObjectId (driver_id p) = Inr oid \<and>
    list_all (\<lambda>d. map_of d ''_id'' \<noteq> Some (VOid oid)) (colls db ''driver'')"
  then have "list_all (\<lambda>d. \<not> matches [(''_id'', VOid oid)] d) (colls db ''driver'')"
    by (auto simp: list_all_iff matches_id split: option.splits)
  then have "find_one (colls db ''driver'') [(''_id'', VOid oid)] = None"
    by (simp add: find_one_None)
  with a show "mark_attendance db now p = (db, Inl (HTTPException 404 ''Driver not found''))"
    by (simp add: mark_attendance_def)
next
  assume "ObjectId (driver_id p) = Inr oid \<and>
    truthy (find_one (colls db ''driver'') [(''_id'', VOid oid)]) \<and>
    normalize_date (date p) = Inl e'"
  moreover from this have "e' = HTTPException 400 ''Invalid date format. Use YYYY-MM-DD''"
    by (auto dest: normalize_date_error)
  ultimately show "mark_attendance db now p =
        (db, Inl (HTTPException 400 ''Invalid date format. Use YYYY-MM-DD''))"
    by (simp add: mark_attendance_def)
next
  assume "snd (mark_attendance db now p) = Inl (HTTPException 400 ''Invalid date format. Use YYYY-MM-DD'')"
  then show "\<exists>i. ObjectId (driver_id p) = Inr i \<and>
           truthy (find_one (colls db ''driver'') [(''_id'', VOid i)])"
    by (auto simp: mark_attendance_def Let_def create_document_def
        split: sum.splits if_splits option.splits prod.splits)
next
  assume "snd (mark_attendance db now p) = Inl (HTTPException code detail)"
  then show "fst (mark_attendance db now p) = db"
    by (auto simp: mark_attendance_def Let_def create_document_def
        split: sum.splits if_splits option.splits prod.splits)
qed

theorem mark_attendance_failures_witness:
  "mark_attendance store0 noon (mark (ustr ''D1'') ''2024/01/01'' Present None) =
     (store0, Inl (HTTPException 400 ''Invalid driver_id'')) \<and>
   mark_attendance store0 noon (mark nobody_id ''2024/01/01'' Present None) =
     (store0, Inl (HTTPException 404 ''Driver not found'')) \<and>
   mark_attendance store0 noon (mark alice_id ''2024/01/01'' Present None) =
     (store0, Inl (HTTPException 400 ''Invalid date format. Use YYYY-MM-DD'')) \<and>
   truthy (find_one (colls store0 ''driver'') [(''_id'', VOid (new_oid 0))]) \<and>
   fst (mark_attendance store0 noon (mark alice_id ''2024/01/01'' Present None)) = store0"
proof -
  let ?bad = "HTTPException 400 ''Invalid date format. Use YYYY-MM-DD''"
  have h1: "ObjectId (driver_id (mark (ustr ''D1'') ''2024/01/01'' Present None)) = Inl InvalidId"
    by (simp add: mark_def ObjectId_def ustr_def)
  have h2: "ObjectId (driver_id (mark nobody_id ''2024/01/01'' Present None)) = Inr (new_oid 15) \<and>
    list_all (\<lambda>d. map_of d ''_id'' \<noteq> Some (VOid (new_oid 15))) (colls store0 ''driver'')"
    by (simp add: mark_def ObjectId_nobody store0_def alice_def new_oid_eval)
  have h3: "ObjectId (driver_id (mark alice_id ''2024/01/01'' Present None)) = Inr (new_oid 0) \<and>
    truthy (find_one (colls store0 ''driver'') [(''_id'', VOid (new_oid 0))]) \<and>
    normalize_date (date (mark alice_id ''2024/01/01'' Present None)) = Inl ?bad"
    by (simp add: mark_def ObjectId_alice find_alice alice_def date_eval)
  note t1 = mark_attendance_failures [of "mark (ustr ''D1'') ''2024/01/01'' Present None" InvalidId store0 noon]
  note t2 = mark_attendance_failures [of "mark nobody_id ''2024/01/01'' Present None" _ store0 noon "new_oid 15"]
  note t3 = mark_attendance_failures [of "mark alice_id ''2024/01/01'' Present None" _ store0 noon "new_oid 0" ?bad
      400 "''Invalid date format. Use YYYY-MM-DD''"]
  from t1 h1 have c1: "mark_attendance store0 noon (mark (ustr ''D1'') ''2024/01/01'' Present None) =
     (store0, Inl (HTTPException 400 ''Invalid driver_id''))" by blast
  from t2 h2 have c2: "mark_attendance store0 noon (mark nobody_id ''2024/01/01'' Present None) =
     (store0, Inl (HTTPException 404 ''Driver not found''))" by blast
  from t3 h3 have c3: "mark_attendance store0 noon (mark alice_id ''2024/01/01'' Present None) =
     (store0, Inl ?bad)" by blast
  from c3 have s3: "snd (mark_attendance store0 noon (mark alice_id ''2024/01/01'' Present None)) = Inl ?bad"
    by simp
  from t3 s3 have c5: "fst (mark_attendance store0 noon (mark alice_id ''2024/01/01'' Present None)) = store0"
    by blast
  from h3 c1 c2 c3 c5 show ?thesis by blast
qed


section \<open>The diagnostic endpoint\<close>




section \<open>The date normalizer\<close>

lemma ascii_digit_is_digit: "ascii_digit lo hi c \<Longrightarrow> hi \<le> 9 \<Longrightarrow> is_digit c"
  by (cases c) (auto simp: ascii_digit_def is_digit_def)

























section \<open>Malformed identifiers and dates\<close>




section \<open>The attendance summary\<close>












section \<open>Identifiers print and parse back\<close>

lemma length_to_bytes [simp]: "length (to_bytes n k) = n"
  by (induction n arbitrary: k) auto

lemma to_bytes_small: "list_all (\<lambda>b. b < 256) (to_bytes n k)"
  by (induction n arbitrary: k) auto

lemma oid_num_snoc: "oid_num (bs @ [b]) = 256 * oid_num bs + b"
  by (simp add: oid_num_def)

lemma oid_num_to_bytes: "oid_num (to_bytes n k) = k mod 256 ^ n"
proof (induction n arbitrary: k)
  case 0
  then show ?case by (simp add: oid_num_def)
next
  case (Suc n)
  have "k mod (256 * 256 ^ n) = 256 * (k div 256 mod 256 ^ n) + k mod 256"
    by (rule mod_mult2_eq)
  with Suc show ?case by (simp add: oid_num_snoc)
qed

lemma oid_num_new_oid: "k < 256 ^ 12 \<Longrightarrow> oid_num (new_oid k) = k"
  by (simp add: new_oid_def oid_num_to_bytes)

lemma upt16: "[0..<16] = [0, 1, 2, 3, 4, 5, 6, 7, 8, 9, 10, 11, 12, 13, 14, 15::nat]"
  by code_simp

lemma mod16_cases:
  "(n::nat) mod 16 = 0 \<or> n mod 16 = 1 \<or> n mod 16 = 2 \<or> n mod 16 = 3 \<or> n mod 16 = 4 \<or>
   n mod 16 = 5 \<or> n mod 16 = 6 \<or> n mod 16 = 7 \<or> n mod 16 = 8 \<or> n mod 16 = 9 \<or>
   n mod 16 = 10 \<or> n mod 16 = 11 \<or> n mod 16 = 12 \<or> n mod 16 = 13 \<or> n mod 16 = 14 \<or>
   n mod 16 = 15"
proof -
  have "n mod 16 \<in> set [0..<16]" by simp
  then show ?thesis unfolding upt16 by simp
qed

lemma hexval_hex_char: "hexval (hex_char n) = Some (n mod 16)"
  using mod16_cases[of n] by (elim disjE) (simp_all add: hex_char_def hexval_def)

lemma hex_char_no_space: "\<not> is_ascii_space (hex_char n)"
  using mod16_cases[of n] by (elim disjE) (simp_all add: hex_char_def is_ascii_space_def)

lemma fromhex_pair:
  assumes "b < 256"
  shows "fromhex (hex_char (b div 16) # hex_char b # s) = map_option ((#) b) (fromhex s)"
proof -
  from assms have "b div 16 < 16" by simp
  then have "16 * (b div 16 mod 16) + b mod 16 = b" by simp
  then show ?thesis
    by (simp add: hexval_hex_char hex_char_no_space)
qed

lemma fromhex_str_oid: "list_all (\<lambda>b. b < 256) bs \<Longrightarrow> fromhex (str_oid bs) = Some bs"
  by (induction bs) (simp_all add: str_oid_def fromhex_pair del: fromhex.simps(3))

lemma length_str_oid: "length (str_oid bs) = 2 * length bs"
  by (induction bs) (simp_all add: str_oid_def)

lemma ObjectId_str_oid:
  "length bs = 12 \<Longrightarrow> list_all (\<lambda>b. b < 256) bs \<Longrightarrow> ObjectId (str_oid bs) = Inr bs"
  by (simp add: ObjectId_def length_str_oid fromhex_str_oid)

lemma ObjectId_new_oid: "ObjectId (str_oid (new_oid k)) = Inr (new_oid k)"
  by (simp add: ObjectId_str_oid new_oid_def to_bytes_small)

section \<open>Facts about the store operations\<close>

lemma map_of_set_fields:
  "map_of (set_fields d sets) k =
     (case map_of (rev sets) k of None \<Rightarrow> map_of d k | Some v \<Rightarrow> Some (to_bson v))"
proof (induction sets arbitrary: d)
  case Nil
  then show ?case by (simp add: set_fields_def)
next
  case (Cons kv sets)
  have "set_fields d (kv # sets) = set_fields (dict_set d (fst kv) (to_bson (snd kv))) sets"
    by (simp add: set_fields_def)
  then show ?case
    using Cons[of "dict_set d (fst kv) (to_bson (snd kv))"]
    by (cases kv) (auto simp: dict_set_def update_conv' map_of_append split: option.splits)
qed

lemma set_fields_not_Nil: "d \<noteq> [] \<Longrightarrow> set_fields d sets \<noteq> []"
proof (induction sets arbitrary: d)
  case Nil
  then show ?case by (simp add: set_fields_def)
next
  case (Cons kv sets)
  have "dict_set d (fst kv) (to_bson (snd kv)) \<noteq> []"
    using Cons.prems by (cases d) (auto simp: dict_set_def)
  from Cons.IH[OF this] show ?case by (simp add: set_fields_def)
qed

lemma update_one_split:
  assumes "find_one coll flt = Some ex"
  shows "\<exists>pre post. coll = pre @ ex # post \<and> list_all (\<lambda>d. \<not> matches flt d) pre \<and>
           update_one coll flt sets = pre @ set_fields ex sets # post"
  using assms
proof (induction coll)
  case Nil
  then show ?case by (simp add: find_one_def)
next
  case (Cons d ds)
  show ?case
  proof (cases "matches flt d")
    case True
    with Cons.prems have "d = ex" by (simp add: find_one_def)
    with True show ?thesis
      by (intro exI[of _ "[]"] exI[of _ ds]) simp
  next
    case False
    with Cons.prems have "find_one ds flt = Some ex" by (simp add: find_one_def)
    from Cons.IH[OF this] obtain pre post where
      "ds = pre @ ex # post" "list_all (\<lambda>d. \<not> matches flt d) pre"
      "update_one ds flt sets = pre @ set_fields ex sets # post" by blast
    with False show ?thesis
      by (intro exI[of _ "d # pre"] exI[of _ post]) simp
  qed
qed

lemma find_one_split:
  "list_all (\<lambda>d. \<not> matches flt d) pre \<Longrightarrow> matches flt x \<Longrightarrow>
     find_one (pre @ x # post) flt = Some x"
  by (induction pre) (auto simp: find_one_def)

lemma matches_oid: "matches [(''_id'', VOid bs)] d = (doc_oid d = Some bs)"
  by (auto simp: matches_id doc_oid_def split: option.splits val.splits)

lemma find_by_oid_distinct:
  assumes "distinct (map doc_oid coll)" "ex \<in> set coll" "doc_oid ex = Some bs"
  shows "find_one coll [(''_id'', VOid bs)] = Some ex"
  using assms
proof (induction coll)
  case Nil
  then show ?case by simp
next
  case (Cons d ds)
  show ?case
  proof (cases "d = ex")
    case True
    with Cons.prems show ?thesis by (simp add: find_one_def matches_oid)
  next
    case False
    with Cons.prems have in_ds: "ex \<in> set ds" by simp
    with Cons.prems have "doc_oid d \<noteq> Some bs" by (force simp: image_iff)
    moreover from Cons.prems in_ds have "find_one ds [(''_id'', VOid bs)] = Some ex"
      by (intro Cons.IH) auto
    ultimately show ?thesis by (simp add: find_one_def matches_oid)
  qed
qed

section \<open>Well-formed stores and the writes of the handlers\<close>

lemma to_bson_opt_val [simp]: "to_bson (opt_val x) = opt_val x"
  by (cases x) simp_all

lemma bson_attendance_data:
  "map (\<lambda>kv. (fst kv, to_bson (snd kv))) (attendance_data p dn) = attendance_data p dn"
  by (simp add: attendance_data_def)

lemma bson_model_dump: "map (\<lambda>kv. (fst kv, to_bson (snd kv))) (model_dump p) = model_dump p"
  by (simp add: model_dump_def)

lemma wf_doc_mono: "wf_doc k d \<Longrightarrow> k \<le> k' \<Longrightarrow> wf_doc k' d"
  by (auto simp: wf_doc_def split: option.splits)

lemma wf_doc_oid: "wf_doc k d \<Longrightarrow> \<exists>bs. doc_oid d = Some bs \<and> map_of d ''_id'' = Some (VOid bs) \<and> oid_num bs < k"
  by (auto simp: wf_doc_def doc_oid_def split: option.splits val.splits)

lemma fresh_oid:
  assumes "wf_coll k coll" "k < 256 ^ 12"
  shows "list_all (\<lambda>d. doc_oid d \<noteq> Some (new_oid k)) coll"
proof -
  have "doc_oid d \<noteq> Some (new_oid k)" if "d \<in> set coll" for d
  proof -
    from assms(1) that have "wf_doc k d" by (simp add: wf_coll_def list_all_iff)
    then obtain bs where "doc_oid d = Some bs" "oid_num bs < k" using wf_doc_oid by blast
    with oid_num_new_oid[OF assms(2)] show ?thesis by auto
  qed
  then show ?thesis by (simp add: list_all_iff)
qed

lemma wf_new_doc:
  assumes "map_of data ''id'' = None"
  shows "wf_doc (Suc k) ((''_id'', VOid (new_oid k)) # data)"
proof -
  have "oid_num (new_oid k) \<le> k"
    by (simp add: new_oid_def oid_num_to_bytes)
  with assms show ?thesis
    by (simp add: wf_doc_def doc_oid_def new_oid_def to_bytes_small)
qed

lemma wf_coll_insert:
  assumes "wf_coll k coll" "k < 256 ^ 12" "map_of data ''id'' = None"
  shows "wf_coll (Suc k) (coll @ [(''_id'', VOid (new_oid k)) # data])"
proof -
  from fresh_oid[OF assms(1,2)] have "Some (new_oid k) \<notin> doc_oid ` set coll"
    by (auto simp: list_all_iff)
  moreover have "doc_oid ((''_id'', VOid (new_oid k)) # data) = Some (new_oid k)"
    by (simp add: doc_oid_def)
  moreover from assms(1) have "list_all (wf_doc (Suc k)) coll"
    by (auto simp: wf_coll_def list_all_iff intro: wf_doc_mono)
  ultimately show ?thesis
    using assms(1) wf_new_doc[OF assms(3), of k] by (simp add: wf_coll_def)
qed

lemma wf_coll_mono: "wf_coll k coll \<Longrightarrow> k \<le> k' \<Longrightarrow> wf_coll k' coll"
  by (auto simp: wf_coll_def list_all_iff intro: wf_doc_mono)

lemma find_new_doc:
  assumes "wf_coll k coll" "k < 256 ^ 12"
  shows "find_one (coll @ [(''_id'', VOid (new_oid k)) # data]) [(''_id'', VOid (new_oid k))] =
           Some ((''_id'', VOid (new_oid k)) # data)"
proof -
  from fresh_oid[OF assms] have "list_all (\<lambda>d. \<not> matches [(''_id'', VOid (new_oid k))] d) coll"
    by (simp add: matches_oid)
  then show ?thesis
    by (intro find_one_split) (simp_all add: matches_oid doc_oid_def)
qed

lemma create_driver_result:
  assumes "wf_store db" "oid_counter db < 256 ^ 12"
  shows "create_driver db p =
           (db\<lparr>colls := (colls db)(''driver'' := colls db ''driver'' @
                  [(''_id'', VOid (new_oid (oid_counter db))) # model_dump p]),
               oid_counter := Suc (oid_counter db)\<rparr>,
            Inr (serialize_id (Some ((''_id'', VOid (new_oid (oid_counter db))) # model_dump p))))"
proof -
  from assms have "wf_coll (oid_counter db) (colls db ''driver'')" by (simp add: wf_store_def)
  from find_new_doc[OF this assms(2), of "model_dump p"] show ?thesis
    by (simp add: create_driver_def create_document_def Let_def ObjectId_new_oid bson_model_dump)
qed

lemma wf_store_create_driver:
  assumes "wf_store db" "oid_counter db < 256 ^ 12"
  shows "wf_store (fst (create_driver db p))"
proof -
  from assms have d: "wf_coll (oid_counter db) (colls db ''driver'')"
    and a: "wf_coll (oid_counter db) (colls db ''attendance'')" by (simp_all add: wf_store_def)
  have "map_of (model_dump p) ''id'' = None" by (simp add: model_dump_def)
  from wf_coll_insert[OF d assms(2) this] wf_coll_mono[OF a, of "Suc (oid_counter db)"] assms(2)
  show ?thesis
    by (simp add: create_driver_result[OF assms] wf_store_def)
qed

lemma mark_insert:
  assumes "wf_store db" "oid_counter db < 256 ^ 12"
    and "ObjectId (driver_id p) = Inr oid"
    and "truthy (find_one (colls db ''driver'') [(''_id'', VOid oid)])"
    and "normalize_date (date p) = Inr dn"
    and "find_one (colls db ''attendance'') (pair_filter p dn) = None"
  shows "mark_attendance db now p =
           (db\<lparr>colls := (colls db)(''attendance'' := colls db ''attendance'' @
                  [(''_id'', VOid (new_oid (oid_counter db))) # attendance_data p dn]),
               oid_counter := Suc (oid_counter db)\<rparr>,
            Inr (serialize_id (Some ((''_id'', VOid (new_oid (oid_counter db))) # attendance_data p dn))))"
proof -
  from assms have "wf_coll (oid_counter db) (colls db ''attendance'')" by (simp add: wf_store_def)
  from find_new_doc[OF this assms(2), of "attendance_data p dn"] assms(3-6) show ?thesis
    by (simp add: mark_attendance_def create_document_def Let_def ObjectId_new_oid
        bson_attendance_data pair_filter_def)
qed

lemma wf_store_mark_insert:
  assumes "wf_store db" "oid_counter db < 256 ^ 12"
    and "ObjectId (driver_id p) = Inr oid"
    and "truthy (find_one (colls db ''driver'') [(''_id'', VOid oid)])"
    and "normalize_date (date p) = Inr dn"
    and "find_one (colls db ''attendance'') (pair_filter p dn) = None"
  shows "wf_store (fst (mark_attendance db now p))"
proof -
  from assms have d: "wf_coll (oid_counter db) (colls db ''driver'')"
    and a: "wf_coll (oid_counter db) (colls db ''attendance'')" by (simp_all add: wf_store_def)
  have "map_of (attendance_data p dn) ''id'' = None" by (simp add: attendance_data_def)
  from wf_coll_insert[OF a assms(2) this] wf_coll_mono[OF d, of "Suc (oid_counter db)"] assms(2)
  show ?thesis
    by (simp add: mark_insert[OF assms] wf_store_def)
qed

lemma matches_pair:
  "matches (pair_filter p dn) d =
     (map_of d ''driver_id'' = Some (VStr (driver_id p)) \<and> map_of d ''date'' = Some (VStr dn))"
  by (auto simp: pair_filter_def matches_def field_matches_def split: option.splits)

lemma map_of_updated:
  "map_of (set_fields ex (update_sets p dn now)) k =
     (if k = ''updated_at'' then Some (VTime (bson_datetime now))
      else if k = ''notes'' then Some (opt_val (notes p))
      else if k = ''status'' then Some (VStr (status_str (status p)))
      else if k = ''date'' then Some (VStr dn)
      else if k = ''driver_id'' then Some (VStr (driver_id p))
      else map_of ex k)"
  by (simp add: map_of_set_fields update_sets_def attendance_data_def)

lemma doc_oid_updated: "doc_oid (set_fields ex (update_sets p dn now)) = doc_oid ex"
  by (simp add: doc_oid_def map_of_updated)

lemma wf_doc_updated: "wf_doc k ex \<Longrightarrow> wf_doc k (set_fields ex (update_sets p dn now))"
  by (auto simp: wf_doc_def doc_oid_updated map_of_updated split: option.splits)

lemma split_unique:
  "pre @ x # post = pre' @ x # post' \<Longrightarrow> x \<notin> set pre \<Longrightarrow> x \<notin> set pre' \<Longrightarrow>
     pre = pre' \<and> post = post'"
proof (induction pre arbitrary: pre')
  case Nil
  then show ?case by (cases pre') auto
next
  case (Cons a pre)
  then show ?case by (cases pre') auto
qed

lemma matches_pair_updated: "matches (pair_filter p dn) (set_fields ex (update_sets p dn now))"
  by (simp add: matches_pair map_of_updated)

lemma mark_update:
  assumes "wf_store db"
    and "ObjectId (driver_id p) = Inr oid"
    and "truthy (find_one (colls db ''driver'') [(''_id'', VOid oid)])"
    and "normalize_date (date p) = Inr dn"
    and "find_one (colls db ''attendance'') (pair_filter p dn) = Some ex"
  shows "\<exists>pre post.
           colls db ''attendance'' = pre @ ex # post \<and>
           list_all (\<lambda>d. \<not> matches (pair_filter p dn) d) pre \<and>
           mark_attendance db now p =
             (db\<lparr>colls := (colls db)(''attendance'' :=
                    pre @ set_fields ex (update_sets p dn now) # post)\<rparr>,
              Inr (serialize_id (Some (set_fields ex (update_sets p dn now)))))"
proof -
  let ?coll = "colls db ''attendance''"
  let ?ex' = "set_fields ex (update_sets p dn now)"
  from assms(1) have wf: "wf_coll (oid_counter db) ?coll" by (simp add: wf_store_def)
  from find_one_Some_matches[OF assms(5)] have ex: "ex \<in> set ?coll" "matches (pair_filter p dn) ex"
    by simp_all
  from ex(2) have nonempty: "ex \<noteq> []" by (auto simp: matches_pair)
  from wf ex(1) have "wf_doc (oid_counter db) ex" by (simp add: wf_coll_def list_all_iff)
  then obtain bs where bs: "doc_oid ex = Some bs" "map_of ex ''_id'' = Some (VOid bs)"
    using wf_doc_oid by blast
  from wf have "distinct (map doc_oid ?coll)" by (simp add: wf_coll_def)
  from find_by_oid_distinct[OF this ex(1) bs(1)]
  have byid: "find_one ?coll [(''_id'', VOid bs)] = Some ex" .
  from update_one_split[OF assms(5), of "[]"] obtain pre post where
    split: "?coll = pre @ ex # post" "list_all (\<lambda>d. \<not> matches (pair_filter p dn) d) pre"
    by blast
  from update_one_split[OF byid, of "update_sets p dn now"] obtain pre' post' where
    split': "?coll = pre' @ ex # post'" "list_all (\<lambda>d. \<not> matches [(''_id'', VOid bs)] d) pre'"
      "update_one ?coll [(''_id'', VOid bs)] (update_sets p dn now) = pre' @ ?ex' # post'"
    by blast
  have same: "pre' = pre \<and> post' = post"
  proof -
    from wf split'(1) have "distinct (map doc_oid (pre' @ ex # post'))" by (simp add: wf_coll_def)
    then have "ex \<notin> set pre'" by (auto simp: image_iff)
    moreover from split(2) ex(2) have "ex \<notin> set pre" by (auto simp: list_all_iff)
    ultimately show ?thesis
      using split(1) split'(1) split_unique[of pre' ex post' pre post] by simp
  qed
  have refetch: "find_one (pre' @ ?ex' # post') [(''_id'', VOid bs)] = Some ?ex'"
    using split'(2) by (intro find_one_split) (simp_all add: matches_oid doc_oid_updated bs)
  from assms(2-5) nonempty bs(2) split'(3) refetch same split show ?thesis
    by (intro exI[of _ pre] exI[of _ post])
      (simp add: mark_attendance_def Let_def pair_filter_def update_sets_def)
qed

lemma wf_store_mark_update:
  assumes "wf_store db"
    and "colls db ''attendance'' = pre @ ex # post"
  shows "wf_store (db\<lparr>colls := (colls db)(''attendance'' :=
            pre @ set_fields ex (update_sets p dn now) # post)\<rparr>)"
proof -
  from assms have "wf_coll (oid_counter db) (pre @ ex # post)" by (simp add: wf_store_def)
  then have "wf_coll (oid_counter db) (pre @ set_fields ex (update_sets p dn now) # post)"
    by (simp add: wf_coll_def doc_oid_updated wf_doc_updated)
  with assms(1) show ?thesis by (simp add: wf_store_def)
qed

end
